theory Spec2Isabelle
  imports Main "HOL-Library.Sublist"
begin

section \<open>JavaScript strings and faults\<close>

text \<open>
  A JavaScript string is modelled as a \<^typ>\<open>string\<close>, one \<^typ>\<open>char\<close> per code unit
  (the code units U+0000 to U+00FF). A missing argument or an unset variable
  (\<^verbatim>\<open>undefined\<close>) is \<^const>\<open>None\<close>.

  The script throws plain strings (\<^verbatim>\<open>throw 'Please select some text.'\<close>); the runtime
  throws a \<^verbatim>\<open>TypeError\<close> when a property of \<^verbatim>\<open>undefined\<close> is read.
\<close>

datatype error = Throw string | TypeError

text \<open>
  \<^verbatim>\<open>String.prototype.substring(a, b)\<close>: both indices are clamped to
  \<open>[0, length]\<close> and swapped when \<open>a > b\<close>.
\<close>

definition substring :: "string \<Rightarrow> int \<Rightarrow> int \<Rightarrow> string" where
  "substring s a b =
     (let n = int (length s);
          a' = min (max a 0) n;
          b' = min (max b 0) n;
          lo = min a' b';
          hi = max a' b'
      in take (nat (hi - lo)) (drop (nat lo) s))"

text \<open>\<^verbatim>\<open>String.prototype.charAt(i)\<close>: the empty string when \<open>i\<close> is out of range.\<close>

definition charAt :: "string \<Rightarrow> int \<Rightarrow> string" where
  "charAt s i = (if 0 \<le> i \<and> i < int (length s) then [s ! nat i] else [])"

text \<open>
  \<^verbatim>\<open>String.prototype.trim()\<close>: strips white space and line terminators from both
  ends; among the code units below U+0100 these are TAB, LF, VT, FF, CR, SPACE and
  NO-BREAK SPACE.
\<close>

definition isWhiteSpace :: "char \<Rightarrow> bool" where
  "isWhiteSpace c = (c \<in> set [CHR 0x09, CHR 0x0A, CHR 0x0B, CHR 0x0C, CHR 0x0D, CHR 0x20, CHR 0xA0])"

definition trim :: "string \<Rightarrow> string" where
  "trim s = rev (dropWhile isWhiteSpace (rev (dropWhile isWhiteSpace s)))"

text \<open>
  \<^verbatim>\<open>encodeURI\<close>: letters, digits and the reserved and unreserved marks stay; every
  other code unit is written as the percent-escapes of its UTF-8 bytes (one byte below
  U+0080, two bytes from U+0080 to U+00FF).
\<close>

definition uriUnescaped :: "char \<Rightarrow> bool" where
  "uriUnescaped c =
     (c \<in> set ''ABCDEFGHIJKLMNOPQRSTUVWXYZabcdefghijklmnopqrstuvwxyz0123456789;/?:@&=+$,-_.!~*'()#'')"

definition hexDigit :: "nat \<Rightarrow> char" where
  "hexDigit n = ''0123456789ABCDEF'' ! (n mod 16)"

definition percentByte :: "nat \<Rightarrow> string" where
  "percentByte b = [CHR ''%'', hexDigit (b div 16), hexDigit b]"

definition encodeURIChar :: "char \<Rightarrow> string" where
  "encodeURIChar c =
     (let n = (of_char c :: nat)
      in if uriUnescaped c then [c]
         else if n < 128 then percentByte n
         else percentByte (192 + n div 64) @ percentByte (128 + n mod 64))"

definition encodeURI :: "string \<Rightarrow> string" where
  "encodeURI s = concat (map encodeURIChar s)"

text \<open>
  \<^verbatim>\<open>s.replace(/pat/g, rep)\<close> for a literal, non-empty pattern and a replacement
  without \<^verbatim>\<open>$\<close>: scanning from the left, every match is replaced and the scan
  resumes after the match.
\<close>

function replace_g :: "string \<Rightarrow> string \<Rightarrow> string \<Rightarrow> string" where
  "replace_g pat rep [] = []"
| "replace_g pat rep (c # cs) =
     (if pat \<noteq> [] \<and> prefix pat (c # cs)
      then rep @ replace_g pat rep (drop (length pat) (c # cs))
      else c # replace_g pat rep cs)"
  by pat_completeness auto
termination
  by (relation "measure (\<lambda>(pat, rep, s). length s)") auto

text \<open>
  A value that the untyped argument of a function can hold. A number is given by the text
  that \<^verbatim>\<open>ToString\<close> prints for it, and an object other than an array by the text of
  the primitive it converts to (\<^verbatim>\<open>[object Object]\<close> for a plain object).
\<close>

datatype jsValue =
    JSUndefined
  | JSNull
  | JSBoolean bool
  | JSNumber string
  | JSString string
  | JSArray "jsValue list"
  | JSObject string

text \<open>
  \<^verbatim>\<open>ToString\<close> of a value; an array is converted by \<^verbatim>\<open>join(',')\<close>, in which
  \<^verbatim>\<open>undefined\<close> and \<^verbatim>\<open>null\<close> elements are empty.
\<close>

fun toStringValue :: "jsValue \<Rightarrow> string" and joinValues :: "jsValue list \<Rightarrow> string" where
  "toStringValue JSUndefined = ''undefined''"
| "toStringValue JSNull = ''null''"
| "toStringValue (JSBoolean b) = (if b then ''true'' else ''false'')"
| "toStringValue (JSNumber s) = s"
| "toStringValue (JSString s) = s"
| "toStringValue (JSArray vs) = joinValues vs"
| "toStringValue (JSObject s) = s"
| "joinValues [] = []"
| "joinValues (v # vs) =
     (case v of JSUndefined \<Rightarrow> [] | JSNull \<Rightarrow> [] | _ \<Rightarrow> toStringValue v)
     @ (if vs = [] then [] else '','' @ joinValues vs)"


section \<open>The host document\<close>

text \<open>
  Modelled from the spec: the document service of the host (\<^verbatim>\<open>DocumentApp\<close>) is not
  part of the repository. An element is a node of a finite tree. It carries the
  capabilities the script tests for (\<^verbatim>\<open>element.editAsText\<close>,
  \<^verbatim>\<open>element.getNumChildren\<close>), its text with the link of every character, the link of
  the element as a whole, and its children in index order.
\<close>

datatype elementType = TEXT | PARAGRAPH | LIST_ITEM | TABLE | INLINE_IMAGE | UNSUPPORTED

datatype element = Element
  (getType: elementType)
  (hasEditAsText: bool)
  (chars: "(char \<times> string option) list")
  (getLinkUrl: "string option")
  (hasGetNumChildren: bool)
  (children: "element list")

definition getText :: "element \<Rightarrow> string" where
  "getText e = map fst (chars e)"

definition getNumChildren :: "element \<Rightarrow> nat" where
  "getNumChildren e = length (children e)"

text \<open>
  Modelled from the spec: the host's \<^verbatim>\<open>element.setLinkUrl(link)\<close>, which every leaf
  accepts, links the whole element: the element itself and all of its characters.
\<close>

definition setLinkUrl :: "string \<Rightarrow> element \<Rightarrow> element" where
  "setLinkUrl link e =
     Element (getType e) (hasEditAsText e) (map (\<lambda>(c, _). (c, Some link)) (chars e))
       (Some link) (hasGetNumChildren e) (children e)"

text \<open>
  Modelled from the spec: the host's \<^verbatim>\<open>text.setLinkUrl(start, endInclusive, link)\<close>
  links the characters at the indices \<open>start\<close> to \<open>endInclusive\<close>.
\<close>

definition setLinkUrlRange :: "int \<Rightarrow> int \<Rightarrow> string \<Rightarrow> element \<Rightarrow> element" where
  "setLinkUrlRange s e link el =
     Element (getType el) (hasEditAsText el)
       (map (\<lambda>(i, (c, l)). if s \<le> int i \<and> int i \<le> e then (c, Some link) else (c, l))
            (enumerate 0 (chars el)))
       (getLinkUrl el) (hasGetNumChildren el) (children el)"

text \<open>
  A range element of the selection: the element, whether only part of it is selected,
  and the offsets of the part (the end inclusive).
\<close>

record rangeElement =
  getElement :: element
  isPartial :: bool
  getStartOffset :: int
  getEndOffsetInclusive :: int

text \<open>The cursor: the text around it, with the links of that text, and its offset there.\<close>

record cursor =
  getSurroundingText :: "(char \<times> string option) list"
  getSurroundingTextOffset :: int

text \<open>
  The active document as the script sees it: \<^verbatim>\<open>getSelection()\<close> and
  \<^verbatim>\<open>getCursor()\<close> return \<^verbatim>\<open>null\<close> (\<^const>\<open>None\<close>) when there is none.
\<close>

record document =
  getSelection :: "rangeElement list option"
  getCursor :: "cursor option"

text \<open>The calls that change the document, in the order the script makes them.\<close>

datatype call =
    SetLinkUrl element string
  | SetLinkUrlRange element int int string
  | InsertText string

section \<open>The selection extractor\<close>

text \<open>The loop of \<^verbatim>\<open>getSelectedText\<close> over the range elements; \<open>text\<close> is the array built so far.\<close>

fun getSelectedText_loop :: "rangeElement list \<Rightarrow> string list \<Rightarrow> string list" where
  "getSelectedText_loop [] text = text"
| "getSelectedText_loop (r # rs) text =
     (if isPartial r then
        (let element = getElement r;
             startIndex = getStartOffset r;
             endIndex = getEndOffsetInclusive r
         in getSelectedText_loop rs (text @ [substring (getText element) startIndex (endIndex + 1)]))
      else
        (let element = getElement r
         in if hasEditAsText element then
              (let elementText = getText element
               in if elementText \<noteq> [] then getSelectedText_loop rs (text @ [elementText])
                  else getSelectedText_loop rs text)
            else getSelectedText_loop rs text))"

definition getSelectedText :: "document \<Rightarrow> error + string list" where
  "getSelectedText d =
     (case getSelection d of
        Some elements \<Rightarrow>
          (let text = getSelectedText_loop elements []
           in if length text = 0 then Inl (Throw ''Please select some text.'') else Inr text)
      | None \<Rightarrow> Inl (Throw ''Please select some text.''))"

section \<open>The link resolver\<close>


record linkResult =
  word :: "string option"
  url :: "string option"
  page :: string




text \<open>
  \<^verbatim>\<open>createWikiUrl\<close>; \<open>fetch\<close> is the HTTP service, from the URL to the body of the
  response. \<^verbatim>\<open>text[0].trim()\<close> on an empty array is a \<^verbatim>\<open>TypeError\<close>.
\<close>

definition createWikiUrl :: "(string \<Rightarrow> string) \<Rightarrow> string list \<Rightarrow> string option \<Rightarrow> error + linkResult" where
  \<open>createWikiUrl fetch text lang =
     (case text of
        [] \<Rightarrow> Inl TypeError
      | t # _ \<Rightarrow>
          (let w = trim t;
               lang' = (case lang of None \<Rightarrow> ''en'' | Some l \<Rightarrow> if l = [] then ''en'' else l);
               u = ''http://'' @ lang' @ ''.wikipedia.org/wiki/'' @ encodeURI w;
               response = fetch u;
               noLinks = replace_g ''href="'' ''nohref="'' response
           in Inr \<lparr>word = Some w, url = Some u, page = noLinks\<rparr>))\<close>


section \<open>The link applier\<close>

text \<open>
  \<^verbatim>\<open>setLinkOnAllChildren\<close> returns the element as the calls leave it, and the calls.
  The second function is its \<^verbatim>\<open>for\<close> loop over the children, from the current index on.
\<close>

fun setLinkOnAllChildren :: "element \<Rightarrow> string \<Rightarrow> element \<times> call list"
  and setLinkOnAllChildren_loop :: "element list \<Rightarrow> string \<Rightarrow> element list \<times> call list"
where
  "setLinkOnAllChildren (Element ty ed cs lk cap kids) link =
     (if \<not> cap \<or> length kids = 0 then
        (setLinkUrl link (Element ty ed cs lk cap kids),
         [SetLinkUrl (Element ty ed cs lk cap kids) link])
      else
        (case setLinkOnAllChildren_loop kids link of
           (kids', calls) \<Rightarrow> (Element ty ed cs lk cap kids', calls)))"
| "setLinkOnAllChildren_loop [] link = ([], [])"
| "setLinkOnAllChildren_loop (child # rest) link =
     (case setLinkOnAllChildren child link of
        (child', calls1) \<Rightarrow>
          (case setLinkOnAllChildren_loop rest link of
             (rest', calls2) \<Rightarrow> (child' # rest', calls1 @ calls2)))"

text \<open>
  The same recursion with the depth of the call stack bounded by \<open>n\<close>: \<^const>\<open>None\<close>
  when a call would go deeper.
\<close>

fun setLinkOnAllChildren_fuel :: "nat \<Rightarrow> element \<Rightarrow> string \<Rightarrow> (element \<times> call list) option"
  and setLinkOnAllChildren_loop_fuel :: "nat \<Rightarrow> element list \<Rightarrow> string \<Rightarrow> (element list \<times> call list) option"
where
  "setLinkOnAllChildren_fuel 0 e link = None"
| "setLinkOnAllChildren_fuel (Suc n) e link =
     (if \<not> hasGetNumChildren e \<or> getNumChildren e = 0 then
        Some (setLinkUrl link e, [SetLinkUrl e link])
      else
        (case setLinkOnAllChildren_loop_fuel n (children e) link of
           None \<Rightarrow> None
         | Some (kids', calls) \<Rightarrow>
             Some (Element (getType e) (hasEditAsText e) (chars e) (getLinkUrl e)
                     (hasGetNumChildren e) kids', calls)))"
| "setLinkOnAllChildren_loop_fuel n [] link = Some ([], [])"
| "setLinkOnAllChildren_loop_fuel n (child # rest) link =
     (case setLinkOnAllChildren_fuel n child link of
        None \<Rightarrow> None
      | Some (child', calls1) \<Rightarrow>
          (case setLinkOnAllChildren_loop_fuel n rest link of
             None \<Rightarrow> None
           | Some (rest', calls2) \<Rightarrow> Some (child' # rest', calls1 @ calls2)))"

text \<open>The \<^verbatim>\<open>for\<close> loop of \<^verbatim>\<open>insertLink\<close> over the range elements of the selection.\<close>

fun insertLink_loop :: "rangeElement list \<Rightarrow> string \<Rightarrow> rangeElement list \<times> call list" where
  "insertLink_loop [] link = ([], [])"
| "insertLink_loop (r # rs) link =
     (let element = getElement r;
          (r', calls1) =
            (if getType element = TEXT \<and> isPartial r then
               (let startIndex = getStartOffset r;
                    endIndex = getEndOffsetInclusive r
                in (r\<lparr>getElement := setLinkUrlRange startIndex endIndex link element\<rparr>,
                    [SetLinkUrlRange element startIndex endIndex link]))
             else
               (case setLinkOnAllChildren element link of
                  (element', calls) \<Rightarrow> (r\<lparr>getElement := element'\<rparr>, calls)));
          (rs', calls2) = insertLink_loop rs link
      in (r' # rs', calls1 @ calls2))"

text \<open>
  Modelled from the spec: the host's \<^verbatim>\<open>cursor.insertText(t)\<close> puts the new
  characters at the cursor, which ends behind them, and returns them as a text element.
\<close>

definition newTextElement :: "string \<Rightarrow> element" where
  "newTextElement t = Element TEXT True (map (\<lambda>c. (c, None)) t) None False []"

definition insertText :: "(char \<times> string option) list \<Rightarrow> cursor \<Rightarrow> cursor" where
  "insertText cs c =
     (let off = nat (getSurroundingTextOffset c)
      in \<lparr>getSurroundingText = take off (getSurroundingText c) @ cs @ drop off (getSurroundingText c),
          getSurroundingTextOffset = getSurroundingTextOffset c + int (length cs)\<rparr>)"

text \<open>
  \<^verbatim>\<open>insertLink\<close> returns the fault it throws, if any, the document as it leaves it
  and the calls it made.
\<close>

definition insertLink :: "string \<Rightarrow> string \<Rightarrow> document \<Rightarrow> error option \<times> document \<times> call list" where
  "insertLink newText link d =
     (case getSelection d of
        Some elements \<Rightarrow>
          (case insertLink_loop elements link of
             (elements', calls) \<Rightarrow> (None, d\<lparr>getSelection := Some elements'\<rparr>, calls))
      | None \<Rightarrow>
          (case getCursor d of
             None \<Rightarrow> (Some (Throw ''To insert, select a location in the document''), d, [])
           | Some cursor \<Rightarrow>
               (let surroundingText = map fst (getSurroundingText cursor);
                    surroundingTextOffset = getSurroundingTextOffset cursor;
                    newText1 =
                      (if surroundingTextOffset > 0 then
                         (if charAt surroundingText (surroundingTextOffset - 1) \<noteq> '' ''
                          then '' '' @ newText else newText)
                       else newText);
                    newText2 =
                      (if surroundingTextOffset < int (length surroundingText) then
                         (if charAt surroundingText surroundingTextOffset \<noteq> '' ''
                          then newText1 @ '' '' else newText1)
                       else newText1);
                    inserted = newTextElement newText2
                in (None,
                    d\<lparr>getCursor := Some (insertText (chars (setLinkUrl link inserted)) cursor)\<rparr>,
                    [InsertText newText2, SetLinkUrl inserted link]))))"

section \<open>Notions of the specification\<close>

text \<open>
  A range element yields usable text when the extractor pushes a fragment for it: a
  partial element always does, a whole element when it can be edited as text and its
  text is not empty.
\<close>

definition yieldsText :: "rangeElement \<Rightarrow> bool" where
  "yieldsText r =
     (isPartial r \<or> (hasEditAsText (getElement r) \<and> getText (getElement r) \<noteq> []))"

text \<open>Documents of the examples: a selection of one image, and of the part [1,3] of "hello".\<close>

definition imageOnly :: document where
  "imageOnly =
     \<lparr>getSelection = Some [\<lparr>getElement = Element INLINE_IMAGE False [] None False [],
        isPartial = False, getStartOffset = - 1, getEndOffsetInclusive = - 1\<rparr>],
      getCursor = None\<rparr>"

definition helloPartial :: document where
  "helloPartial =
     \<lparr>getSelection = Some [\<lparr>getElement = Element TEXT True (map (\<lambda>c. (c, None)) ''hello'') None False [],
        isPartial = True, getStartOffset = 1, getEndOffsetInclusive = 3\<rparr>],
      getCursor = None\<rparr>"

definition nowhere :: document where
  "nowhere = \<lparr>getSelection = None, getCursor = None\<rparr>"

text \<open>
  A leaf is an element without the child capability or without children. The leaves of
  a tree, depth-first with the children in index order, and the tree with the link set on
  exactly its leaves, every composite node kept as it is.
\<close>

definition isLeaf :: "element \<Rightarrow> bool" where
  "isLeaf e = (\<not> hasGetNumChildren e \<or> children e = [])"

fun leaves :: "element \<Rightarrow> element list" where
  "leaves (Element ty ed cs lk cap kids) =
     (if \<not> cap \<or> kids = [] then [Element ty ed cs lk cap kids]
      else concat (map leaves kids))"

fun linkLeaves :: "string \<Rightarrow> element \<Rightarrow> element" where
  "linkLeaves link (Element ty ed cs lk cap kids) =
     (if \<not> cap \<or> kids = [] then setLinkUrl link (Element ty ed cs lk cap kids)
      else Element ty ed cs lk cap (map (linkLeaves link) kids))"

text \<open>The depth of a tree: 0 for a leaf.\<close>

fun depth :: "element \<Rightarrow> nat" and depths :: "element list \<Rightarrow> nat" where
  "depth (Element ty ed cs lk cap kids) = (if \<not> cap \<or> kids = [] then 0 else Suc (depths kids))"
| "depths [] = 0"
| "depths (k # ks) = max (depth k) (depths ks)"

text \<open>
  The text to insert at offset \<open>off\<close> of the text \<open>s\<close>: a space in front when there
  is a character before the offset and it is not a space, a space behind when there is a
  character at the offset and it is not a space.
\<close>

definition padded :: "string \<Rightarrow> int \<Rightarrow> string \<Rightarrow> string" where
  "padded s off newText =
     (if 0 < off \<and> s ! nat (off - 1) \<noteq> CHR '' '' then '' '' else [])
     @ newText
     @ (if off < int (length s) \<and> s ! nat off \<noteq> CHR '' '' then '' '' else [])"

text \<open>
  More documents of the examples: a composite element with three children, the second
  of them with two children; a cursor at an offset of an unlinked text.
\<close>

definition imageLeaf :: element where
  "imageLeaf = Element INLINE_IMAGE False [] None False []"

definition textLeaf :: "string \<Rightarrow> element" where
  "textLeaf s = Element TEXT True (map (\<lambda>c. (c, None)) s) None False []"

definition threeChildren :: element where
  "threeChildren = Element PARAGRAPH True [] None True
     [textLeaf ''a'', Element PARAGRAPH True [] None True [textLeaf ''b'', imageLeaf], textLeaf ''c'']"

definition wholeSelection :: "element \<Rightarrow> document" where
  "wholeSelection e =
     \<lparr>getSelection = Some [\<lparr>getElement = e, isPartial = False,
        getStartOffset = - 1, getEndOffsetInclusive = - 1\<rparr>],
      getCursor = None\<rparr>"

definition atCursor :: "string \<Rightarrow> int \<Rightarrow> document" where
  "atCursor s off =
     \<lparr>getSelection = None,
      getCursor = Some \<lparr>getSurroundingText = map (\<lambda>c. (c, None)) s, getSurroundingTextOffset = off\<rparr>\<rparr>"

text \<open>Applying the link a second time, to the document the first application left.\<close>

definition insertLinkTwice :: "string \<Rightarrow> string \<Rightarrow> document \<Rightarrow> error option \<times> document \<times> call list" where
  "insertLinkTwice newText link d = insertLink newText link (fst (snd (insertLink newText link d)))"







definition hrefPage :: "string \<Rightarrow> string" where
  \<open>hrefPage u = ''<a href="x">''\<close>

section \<open>Properties of the selection extractor\<close>

lemma getSelectedText_loop_acc:
  "getSelectedText_loop rs acc = acc @ getSelectedText_loop rs []"
proof (induction rs arbitrary: acc)
  case Nil
  show ?case by simp
next
  case (Cons r rs)
  have a: "\<And>x. getSelectedText_loop rs (acc @ [x]) = acc @ [x] @ getSelectedText_loop rs []"
    using Cons.IH [of "acc @ [x]" for x] by simp
  have b: "\<And>x. getSelectedText_loop rs [x] = [x] @ getSelectedText_loop rs []"
    using Cons.IH [of "[x]" for x] by simp
  show ?case
    using a b Cons.IH [of acc] by (simp add: Let_def)
qed

lemma getSelectedText_loop_append:
  "getSelectedText_loop (xs @ ys) [] = getSelectedText_loop xs [] @ getSelectedText_loop ys []"
proof (induction xs)
  case Nil
  show ?case by simp
next
  case (Cons r xs)
  have b: "\<And>x zs. getSelectedText_loop zs [x] = [x] @ getSelectedText_loop zs []"
    using getSelectedText_loop_acc [of _ "[x]" for x] by simp
  show ?case using Cons.IH by (simp add: Let_def b)
qed

lemma getSelectedText_loop_empty:
  "getSelectedText_loop rs [] = [] \<longleftrightarrow> (\<forall>r\<in>set rs. \<not> yieldsText r)"
proof (induction rs)
  case Nil
  show ?case by simp
next
  case (Cons r rs)
  have b: "\<And>x. getSelectedText_loop rs [x] = [x] @ getSelectedText_loop rs []"
    using getSelectedText_loop_acc [of rs "[x]" for x] by simp
  show ?case using Cons.IH by (auto simp: Let_def b yieldsText_def)
qed

text \<open>
  C5. For a partial range element over a text element, with offsets inside the text,
  the extractor pushes the characters from the start offset to the end offset
  inclusive, between the fragments of the range elements before and after it.
\<close>

theorem getSelectedText_partial_slice:
  assumes "getSelection d = Some (pre @ r # post)"
    and "isPartial r" and "getType (getElement r) = TEXT"
    and "0 \<le> getStartOffset r" and "getStartOffset r \<le> getEndOffsetInclusive r"
    and "getEndOffsetInclusive r < int (length (getText (getElement r)))"
  shows "getSelectedText d =
           Inr (getSelectedText_loop pre []
                @ [take (nat (getEndOffsetInclusive r - getStartOffset r + 1))
                     (drop (nat (getStartOffset r)) (getText (getElement r)))]
                @ getSelectedText_loop post [])"
proof -
  let ?t = "getText (getElement r)"
  have sub: "substring ?t (getStartOffset r) (getEndOffsetInclusive r + 1) =
          take (nat (getEndOffsetInclusive r - getStartOffset r + 1)) (drop (nat (getStartOffset r)) ?t)"
  proof -
    have ar: "getEndOffsetInclusive r + 1 - getStartOffset r
                = getEndOffsetInclusive r - getStartOffset r + 1"
      by arith
    show ?thesis
      using assms(4,5,6) by (simp add: substring_def Let_def min_def max_def ar)
  qed
  have b: "\<And>x zs. getSelectedText_loop zs [x] = [x] @ getSelectedText_loop zs []"
    using getSelectedText_loop_acc [of _ "[x]" for x] by simp
  have one: "getSelectedText_loop (r # post) [] =
          [substring ?t (getStartOffset r) (getEndOffsetInclusive r + 1)] @ getSelectedText_loop post []"
    using assms(2) by (simp add: Let_def b)
  have "getSelectedText_loop (pre @ r # post) [] =
          getSelectedText_loop pre [] @ [substring ?t (getStartOffset r) (getEndOffsetInclusive r + 1)]
            @ getSelectedText_loop post []"
    using getSelectedText_loop_append [of pre "r # post"] one by simp
  then show ?thesis
    using assms(1) sub by (simp add: getSelectedText_def Let_def)
qed

text \<open>The offsets [1,3] on "hello" yield "ell".\<close>

theorem getSelectedText_partial_slice_witness:
  "getSelectedText helloPartial = Inr [''ell'']"
  using getSelectedText_partial_slice [of helloPartial "[]" "hd (the (getSelection helloPartial))" "[]"]
  by (simp add: helloPartial_def getText_def)

text \<open>
  C7. The extractor fails if and only if there is no selection or no range element of
  the selection yields usable text, and every failure is the same fault,
  "Please select some text.".
\<close>

theorem getSelectedText_fails_iff:
  "getSelectedText d = Inl e \<longleftrightarrow>
     e = Throw ''Please select some text.'' \<and>
     (case getSelection d of None \<Rightarrow> True | Some rs \<Rightarrow> \<forall>r\<in>set rs. \<not> yieldsText r)"
  by (auto simp: getSelectedText_def Let_def getSelectedText_loop_empty split: option.splits)

text \<open>A selection over a single image fails with that fault.\<close>

theorem getSelectedText_fails_iff_witness:
  "getSelectedText imageOnly = Inl (Throw ''Please select some text.'')"
proof -
  have h: "\<forall>r\<in>set (the (getSelection imageOnly)). \<not> yieldsText r"
    by (simp add: imageOnly_def yieldsText_def)
  have s: "getSelection imageOnly = Some (the (getSelection imageOnly))"
    by (simp add: imageOnly_def)
  have "getSelectedText imageOnly = Inl (Throw ''Please select some text.'')"
    using getSelectedText_fails_iff [of imageOnly "Throw ''Please select some text.''"] h s
    by (simp split: option.splits)
  then show ?thesis .
qed

section \<open>Properties of the link resolver\<close>




lemma replace_g_match:
  "pat \<noteq> [] \<Longrightarrow> prefix pat s \<Longrightarrow>
     replace_g pat rep s = rep @ replace_g pat rep (drop (length pat) s)"
  by (cases s) simp_all

lemma replace_g_skip:
  "\<not> prefix pat (c # cs) \<Longrightarrow> replace_g pat rep (c # cs) = c # replace_g pat rep cs"
  by simp

lemma replace_g_keeps_prefix:
  \<open>prefix w (replace_g ''href="'' ''nohref="'' s) \<Longrightarrow> CHR ''n'' \<notin> set w \<Longrightarrow> prefix w s\<close>
proof (induction s arbitrary: w)
  case Nil
  then show ?case by simp
next
  case (Cons c cs)
  show ?case
  proof (cases w)
    case Nil
    then show ?thesis by simp
  next
    case w: (Cons a w')
    show ?thesis
    proof (cases \<open>prefix ''href="'' (c # cs)\<close>)
      case True
      have \<open>replace_g ''href="'' ''nohref="'' (c # cs)
              = ''nohref="'' @ replace_g ''href="'' ''nohref="'' (drop (length ''href="'') (c # cs))\<close>
        by (rule replace_g_match) (use True in simp_all)
      then have \<open>prefix (a # w') (CHR ''n'' # ''ohref="''
                @ replace_g ''href="'' ''nohref="'' (drop (length ''href="'') (c # cs)))\<close>
        using Cons.prems(1) w by simp
      then have \<open>a = CHR ''n''\<close> by simp
      then show ?thesis using Cons.prems(2) w by simp
    next
      case False
      then have \<open>replace_g ''href="'' ''nohref="'' (c # cs) = c # replace_g ''href="'' ''nohref="'' cs\<close>
        by (rule replace_g_skip)
      then show ?thesis using Cons.prems w Cons.IH [of w'] by simp
    qed
  qed
qed

lemma nohref_split:
  \<open>''nohref="'' @ t = u @ ''href="'' @ v \<Longrightarrow>
     u = ''no'' \<or> (\<exists>u'. u = ''nohref="'' @ u' \<and> t = u' @ ''href="'' @ v)\<close>
  by (auto simp: Cons_eq_append_conv)

lemma replace_g_href_preceded:
  \<open>replace_g ''href="'' ''nohref="'' s = u @ ''href="'' @ v \<Longrightarrow> \<exists>w. u = w @ ''no''\<close>
proof (induction s arbitrary: u v rule: length_induct)
  case (1 s)
  show ?case
  proof (cases s)
    case Nil
    then show ?thesis using "1.prems" by simp
  next
    case (Cons c cs)
    show ?thesis
    proof (cases \<open>prefix ''href="'' (c # cs)\<close>)
      case True
      let ?rest = \<open>drop (length ''href="'') s\<close>
      have m: \<open>replace_g ''href="'' ''nohref="'' s = ''nohref="'' @ replace_g ''href="'' ''nohref="'' ?rest\<close>
        by (rule replace_g_match) (use True Cons in simp_all)
      have eq: \<open>''nohref="'' @ replace_g ''href="'' ''nohref="'' ?rest = u @ ''href="'' @ v\<close>
        using "1.prems" unfolding m .
      have len: \<open>length ?rest < length s\<close> using Cons by simp
      from nohref_split [OF eq] show ?thesis
      proof
        assume \<open>u = ''no''\<close>
        then show ?thesis by simp
      next
        assume \<open>\<exists>u'. u = ''nohref="'' @ u' \<and> replace_g ''href="'' ''nohref="'' ?rest = u' @ ''href="'' @ v\<close>
        then obtain u' where u': \<open>u = ''nohref="'' @ u'\<close>
          and r: \<open>replace_g ''href="'' ''nohref="'' ?rest = u' @ ''href="'' @ v\<close> by blast
        from "1.IH" len r obtain w where \<open>u' = w @ ''no''\<close> by blast
        then have \<open>u = (''nohref="'' @ w) @ ''no''\<close> using u' by simp
        then show ?thesis by blast
      qed
    next
      case False
      then have \<open>replace_g ''href="'' ''nohref="'' (c # cs) = c # replace_g ''href="'' ''nohref="'' cs\<close>
        by (rule replace_g_skip)
      then have eq: \<open>c # replace_g ''href="'' ''nohref="'' cs = u @ ''href="'' @ v\<close>
        using "1.prems" Cons by simp
      show ?thesis
      proof (cases u)
        case Nil
        then have c: \<open>c = CHR ''h''\<close> and \<open>prefix ''ref="'' (replace_g ''href="'' ''nohref="'' cs)\<close>
          using eq by (auto simp: prefix_def)
        then have \<open>prefix ''ref="'' cs\<close> using replace_g_keeps_prefix by simp
        then have \<open>prefix ''href="'' (c # cs)\<close> using c by simp
        then show ?thesis using False by simp
      next
        case (Cons a u')
        then have r: \<open>replace_g ''href="'' ''nohref="'' cs = u' @ ''href="'' @ v\<close>
          using eq by simp
        have \<open>length cs < length s\<close> using \<open>s = c # cs\<close> by simp
        with "1.IH" r obtain w where \<open>u' = w @ ''no''\<close> by blast
        then have \<open>u = (a # w) @ ''no''\<close> using Cons by simp
        then show ?thesis by blast
      qed
    qed
  qed
qed

lemma replace_g_no_match:
  \<open>\<not> sublist ''href="'' s \<Longrightarrow> replace_g ''href="'' ''nohref="'' s = s\<close>
proof (induction s)
  case Nil
  then show ?case by simp
next
  case (Cons c cs)
  then show ?case by (simp add: sublist_Cons_right del: Cons_prefix_Cons)
qed

lemma encodeURI_Cat: "encodeURI (trim ''Cat'') = ''Cat''"
  by (simp add: encodeURI_def encodeURIChar_def uriUnescaped_def trim_def isWhiteSpace_def)

text \<open>
  C1, as amended. For the word "Cat" and no language, the resolver returns the URL
  "http://en.wikipedia.org/wiki/Cat"; whatever body is fetched, every \<^verbatim>\<open>href="\<close> of
  the returned page follows "no" directly (it is the end of a \<^verbatim>\<open>nohref="\<close>), and a
  body without \<^verbatim>\<open>href="\<close> is returned as it is.
\<close>

theorem createWikiUrl_Cat:
  \<open>\<exists>r. createWikiUrl fetch [''Cat''] None = Inr r
       \<and> url r = Some ''http://en.wikipedia.org/wiki/Cat''
       \<and> (\<forall>u v. page r = u @ ''href="'' @ v \<longrightarrow> (\<exists>w. u = w @ ''no''))
       \<and> (\<not> sublist ''href="'' (fetch ''http://en.wikipedia.org/wiki/Cat'')
            \<longrightarrow> page r = fetch ''http://en.wikipedia.org/wiki/Cat'')\<close>
proof -
  let ?u = \<open>''http://en.wikipedia.org/wiki/Cat''\<close>
  let ?p = \<open>replace_g ''href="'' ''nohref="'' (fetch ?u)\<close>
  let ?r = \<open>\<lparr>word = Some ''Cat'', url = Some ?u, page = ?p\<rparr>\<close>
  have t: \<open>trim ''Cat'' = ''Cat''\<close>
    by (simp add: trim_def isWhiteSpace_def)
  have c: \<open>createWikiUrl fetch [''Cat''] None = Inr ?r\<close>
    using encodeURI_Cat t by (simp add: createWikiUrl_def Let_def del: replace_g.simps)
  have a: \<open>\<forall>u v. ?p = u @ ''href="'' @ v \<longrightarrow> (\<exists>w. u = w @ ''no'')\<close>
    using replace_g_href_preceded by blast
  have b: \<open>\<not> sublist ''href="'' (fetch ?u) \<longrightarrow> ?p = fetch ?u\<close>
    using replace_g_no_match by blast
  show ?thesis
  proof (rule exI [where x = \<open>?r\<close>])
    show \<open>createWikiUrl fetch [''Cat''] None = Inr ?r
       \<and> url ?r = Some ?u
       \<and> (\<forall>u v. page ?r = u @ ''href="'' @ v \<longrightarrow> (\<exists>w. u = w @ ''no''))
       \<and> (\<not> sublist ''href="'' (fetch ?u) \<longrightarrow> page ?r = fetch ?u)\<close>
      using c a b by (simp del: replace_g.simps)
  qed
qed

theorem createWikiUrl_Cat_witness:
  \<open>page (projr (createWikiUrl hrefPage [''Cat''] None)) = ''<a no'' @ ''href="'' @ ''x">''
     \<and> suffix ''no'' ''<a no''\<close>
proof -
  from createWikiUrl_Cat [of hrefPage] obtain r
    where r: \<open>createWikiUrl hrefPage [''Cat''] None = Inr r\<close>
      and h: \<open>\<forall>u v. page r = u @ ''href="'' @ v \<longrightarrow> (\<exists>w. u = w @ ''no'')\<close>
    by blast
  have p: \<open>page r = ''<a no'' @ ''href="'' @ ''x">''\<close>
    using r by (auto simp: createWikiUrl_def Let_def hrefPage_def)
  with h have \<open>\<exists>w. ''<a no'' = w @ ''no''\<close> by blast
  then have \<open>suffix ''no'' ''<a no''\<close> by (simp add: suffix_def)
  then show ?thesis using p r by simp
qed

text \<open>
  C1 as stated fails: the substitute \<^verbatim>\<open>nohref="\<close> itself contains \<^verbatim>\<open>href="\<close>, so
  the page of a body with an anchor still contains that text.
\<close>

theorem createWikiUrl_Cat_counterexample:
  \<open>sublist ''href="'' (page (projr (createWikiUrl hrefPage [''Cat''] None)))\<close>
  by (simp add: createWikiUrl_def Let_def hrefPage_def sublist_Cons_right)













section \<open>Properties of the link applier\<close>

text \<open>
  C8. The applier throws "To insert, select a location in the document" exactly when
  there is neither a selection nor a cursor, and then it has made no call and the
  document is as it was; it throws nothing else.
\<close>

theorem insertLink_no_insertion_point:
  "insertLink newText link d = (Some e, d', calls) \<longleftrightarrow>
     e = Throw ''To insert, select a location in the document'' \<and>
     getSelection d = None \<and> getCursor d = None \<and> d' = d \<and> calls = []"
  by (auto simp: insertLink_def Let_def split: option.splits prod.splits)

theorem insertLink_no_insertion_point_witness:
  "insertLink ''link'' ''http://a'' nowhere
     = (Some (Throw ''To insert, select a location in the document''), nowhere, [])"
  using insertLink_no_insertion_point [of "''link''" "''http://a''" nowhere
          "Throw ''To insert, select a location in the document''" nowhere "[]"]
  by (simp add: nowhere_def)

lemma setLinkOnAllChildren_spec:
  "setLinkOnAllChildren e link = (linkLeaves link e, map (\<lambda>l. SetLinkUrl l link) (leaves e))"
  "setLinkOnAllChildren_loop ks link =
     (map (linkLeaves link) ks, map (\<lambda>l. SetLinkUrl l link) (concat (map leaves ks)))"
  by (induction e link and ks link rule: setLinkOnAllChildren_setLinkOnAllChildren_loop.induct)
     (auto simp: Let_def)

lemma leaves_isLeaf: "l \<in> set (leaves e) \<Longrightarrow> isLeaf l"
  by (induction e rule: leaves.induct) (auto simp: isLeaf_def split: if_splits)

lemma insertLink_loop_append:
  "insertLink_loop (xs @ ys) link =
     (fst (insertLink_loop xs link) @ fst (insertLink_loop ys link),
      snd (insertLink_loop xs link) @ snd (insertLink_loop ys link))"
  by (induction xs) (auto simp: Let_def split: prod.splits)

text \<open>
  C4. For a range element that is not a partial text range, the applier calls
  \<^verbatim>\<open>setLinkUrl(link)\<close> on exactly the leaves of the element's tree, depth-first with
  the children in index order, and on no composite node: the tree it leaves is the one
  with the link set on the leaves and every composite node as it was.
\<close>

theorem insertLink_links_leaves:
  assumes "getSelection d = Some (pre @ r # post)"
    and "\<not> (getType (getElement r) = TEXT \<and> isPartial r)"
  shows "setLinkOnAllChildren (getElement r) link
           = (linkLeaves link (getElement r), map (\<lambda>l. SetLinkUrl l link) (leaves (getElement r)))
         \<and> (\<forall>l\<in>set (leaves (getElement r)). isLeaf l)
         \<and> insertLink newText link d
           = (None,
              d\<lparr>getSelection := Some (fst (insertLink_loop pre link)
                   @ [r\<lparr>getElement := linkLeaves link (getElement r)\<rparr>]
                   @ fst (insertLink_loop post link))\<rparr>,
              snd (insertLink_loop pre link)
                @ map (\<lambda>l. SetLinkUrl l link) (leaves (getElement r))
                @ snd (insertLink_loop post link))"
proof -
  have one: "insertLink_loop (r # post) link =
      (r\<lparr>getElement := linkLeaves link (getElement r)\<rparr> # fst (insertLink_loop post link),
       map (\<lambda>l. SetLinkUrl l link) (leaves (getElement r)) @ snd (insertLink_loop post link))"
    using assms(2) by (auto simp: Let_def setLinkOnAllChildren_spec(1) split: prod.splits)
  have "insertLink_loop (pre @ r # post) link =
      (fst (insertLink_loop pre link) @ [r\<lparr>getElement := linkLeaves link (getElement r)\<rparr>]
         @ fst (insertLink_loop post link),
       snd (insertLink_loop pre link) @ map (\<lambda>l. SetLinkUrl l link) (leaves (getElement r))
         @ snd (insertLink_loop post link))"
    using insertLink_loop_append [of pre "r # post" link] one by simp
  then have "insertLink newText link d
           = (None,
              d\<lparr>getSelection := Some (fst (insertLink_loop pre link)
                   @ [r\<lparr>getElement := linkLeaves link (getElement r)\<rparr>]
                   @ fst (insertLink_loop post link))\<rparr>,
              snd (insertLink_loop pre link)
                @ map (\<lambda>l. SetLinkUrl l link) (leaves (getElement r))
                @ snd (insertLink_loop post link))"
    using assms(1) by (simp add: insertLink_def)
  then show ?thesis
    using setLinkOnAllChildren_spec(1) leaves_isLeaf by blast
qed

text \<open>
  On the composite element with three children, one of them with two children, the
  calls are on the four leaves, in order.
\<close>

theorem insertLink_links_leaves_witness:
  "snd (snd (insertLink ''t'' ''L'' (wholeSelection threeChildren)))
   = [SetLinkUrl (textLeaf ''a'') ''L'', SetLinkUrl (textLeaf ''b'') ''L'',
      SetLinkUrl imageLeaf ''L'', SetLinkUrl (textLeaf ''c'') ''L'']"
  using insertLink_links_leaves [of "wholeSelection threeChildren" "[]"
      "hd (the (getSelection (wholeSelection threeChildren)))" "[]" "''L''" "''t''"]
  by (simp add: wholeSelection_def threeChildren_def textLeaf_def imageLeaf_def)

lemma depth_le_depths: "k \<in> set ks \<Longrightarrow> depth k \<le> depths ks"
  by (induction ks) auto

lemma setLinkOnAllChildren_fuel_enough:
  "depth e < n \<Longrightarrow> setLinkOnAllChildren_fuel n e link = Some (setLinkOnAllChildren e link)"
  "(\<forall>k\<in>set ks. depth k < n) \<Longrightarrow>
     setLinkOnAllChildren_loop_fuel n ks link = Some (setLinkOnAllChildren_loop ks link)"
proof (induction n e link and n ks link
        rule: setLinkOnAllChildren_fuel_setLinkOnAllChildren_loop_fuel.induct)
  case (1 e link)
  then show ?case by simp
next
  case (2 n e link)
  obtain ty ed cs lk cap kids where e: "e = Element ty ed cs lk cap kids" by (cases e)
  show ?case
  proof (cases "\<not> cap \<or> kids = []")
    case True
    then show ?thesis using e by (auto simp: getNumChildren_def)
  next
    case False
    then have "depths kids < n" using "2.prems" e by simp
    then have "\<forall>k\<in>set kids. depth k < n"
      using depth_le_depths by (meson le_less_trans)
    then have "setLinkOnAllChildren_loop_fuel n kids link = Some (setLinkOnAllChildren_loop kids link)"
      using "2.IH" False e by (simp add: getNumChildren_def)
    then show ?thesis using False e by (auto simp: getNumChildren_def split: prod.splits)
  qed
next
  case (3 n link)
  then show ?case by simp
next
  case (4 n child rest link)
  then show ?case by (auto split: prod.splits)
qed

text \<open>
  C10. \<^verbatim>\<open>setLinkOnAllChildren\<close> returns on every element tree: a call stack one deeper
  than the tree is enough, with no set of visited nodes.
\<close>

theorem setLinkOnAllChildren_terminates:
  "setLinkOnAllChildren_fuel (Suc (depth e)) e link = Some (setLinkOnAllChildren e link)"
  by (simp add: setLinkOnAllChildren_fuel_enough(1) del: setLinkOnAllChildren_fuel.simps)

text \<open>The composite element with three children has depth 2; a stack of depth 3 is enough.\<close>

theorem setLinkOnAllChildren_terminates_witness:
  "setLinkOnAllChildren_fuel 3 threeChildren ''L'' = Some (setLinkOnAllChildren threeChildren ''L'')"
proof -
  have "Suc (depth threeChildren) = 3"
    by (simp add: threeChildren_def textLeaf_def imageLeaf_def)
  then show ?thesis
    using setLinkOnAllChildren_terminates [of threeChildren "''L''"] by simp
qed

text \<open>
  C6. At a cursor inside its surrounding text, with no selection, the applier inserts
  the new text with a space in front exactly when there is a character before the cursor
  and it is not a space, and a space behind exactly when there is a character after the
  cursor and it is not a space; the link is set on the inserted text.
\<close>

theorem insertLink_cursor_padding:
  assumes "getSelection d = None" and "getCursor d = Some c"
    and "0 \<le> getSurroundingTextOffset c"
    and "getSurroundingTextOffset c \<le> int (length (getSurroundingText c))"
  shows "insertLink newText link d =
    (let p = padded (map fst (getSurroundingText c)) (getSurroundingTextOffset c) newText
     in (None,
         d\<lparr>getCursor := Some
            \<lparr>getSurroundingText =
               take (nat (getSurroundingTextOffset c)) (getSurroundingText c)
               @ map (\<lambda>ch. (ch, Some link)) p
               @ drop (nat (getSurroundingTextOffset c)) (getSurroundingText c),
             getSurroundingTextOffset = getSurroundingTextOffset c + int (length p)\<rparr>\<rparr>,
         [InsertText p, SetLinkUrl (newTextElement p) link]))"
  using assms
  by (auto simp: insertLink_def Let_def padded_def charAt_def insertText_def newTextElement_def
        setLinkUrl_def comp_def)

text \<open>
  "link" between "x" and "y" is inserted as " link "; after a space, without the
  space in front.
\<close>

theorem insertLink_cursor_padding_witness:
  "snd (snd (insertLink ''link'' ''L'' (atCursor ''xy'' 1)))
     = [InsertText '' link '', SetLinkUrl (newTextElement '' link '') ''L'']
   \<and> snd (snd (insertLink ''link'' ''L'' (atCursor ''x y'' 2)))
     = [InsertText ''link '', SetLinkUrl (newTextElement ''link '') ''L'']"
  using insertLink_cursor_padding [of "atCursor ''xy'' 1" "the (getCursor (atCursor ''xy'' 1))" "''link''" "''L''"]
        insertLink_cursor_padding [of "atCursor ''x y'' 2" "the (getCursor (atCursor ''x y'' 2))" "''link''" "''L''"]
  by (simp add: atCursor_def padded_def Let_def)

lemma setLinkUrlRange_idem:
  "setLinkUrlRange s e link (setLinkUrlRange s e link el) = setLinkUrlRange s e link el"
proof -
  let ?f = "\<lambda>(i, (c, l)). if s \<le> int i \<and> int i \<le> e then (c, Some link) else (c, l)"
  have "map ?f (enumerate 0 (map ?f (enumerate 0 cs))) = map ?f (enumerate 0 cs)"
    for cs :: "(char \<times> string option) list"
    by (rule nth_equalityI) (auto simp: nth_enumerate_eq split: prod.splits)
  then show ?thesis by (simp add: setLinkUrlRange_def)
qed

lemma linkLeaves_idem: "linkLeaves link (linkLeaves link e) = linkLeaves link e"
  by (induction link e rule: linkLeaves.induct) (auto simp: setLinkUrl_def comp_def case_prod_beta)

lemma getType_linkLeaves: "getType (linkLeaves link e) = getType e"
  by (cases e) (simp add: setLinkUrl_def)

lemma getType_setLinkUrlRange: "getType (setLinkUrlRange s e link el) = getType el"
  by (simp add: setLinkUrlRange_def)

lemma insertLink_loop_idem:
  "fst (insertLink_loop (fst (insertLink_loop rs link)) link) = fst (insertLink_loop rs link)"
  by (induction rs)
     (auto simp: Let_def setLinkOnAllChildren_spec(1) linkLeaves_idem getType_linkLeaves
        getType_setLinkUrlRange setLinkUrlRange_idem split: prod.splits)

text \<open>
  C2, as amended. When there is a selection, applying the same link a second time
  succeeds and leaves the document as the first application left it. (At a cursor the
  second application inserts the text again; see the counterexample.)
\<close>

theorem insertLink_selection_idempotent:
  assumes "getSelection d = Some rs"
  shows "fst (insertLink newText link d) = None
       \<and> fst (insertLinkTwice newText link d) = None
       \<and> fst (snd (insertLinkTwice newText link d)) = fst (snd (insertLink newText link d))"
  using assms insertLink_loop_idem [of rs link]
  by (auto simp: insertLinkTwice_def insertLink_def split: prod.splits)

theorem insertLink_selection_idempotent_witness:
  "fst (snd (insertLinkTwice ''t'' ''L'' helloPartial)) = fst (snd (insertLink ''t'' ''L'' helloPartial))"
  using insertLink_selection_idempotent [of helloPartial "the (getSelection helloPartial)" "''t''" "''L''"]
  by (simp add: helloPartial_def)

text \<open>
  C2 as stated fails at a cursor: in an empty text, inserting "a" once leaves the text
  "a", and applying the same link again leaves "a a". Both applications succeed.
\<close>

theorem insertLink_idempotent_counterexample:
  "fst (insertLink ''a'' ''L'' (atCursor [] 0)) = None
   \<and> fst (insertLinkTwice ''a'' ''L'' (atCursor [] 0)) = None
   \<and> map fst (getSurroundingText (the (getCursor (fst (snd (insertLink ''a'' ''L'' (atCursor [] 0)))))))
       = ''a''
   \<and> map fst (getSurroundingText (the (getCursor (fst (snd (insertLinkTwice ''a'' ''L'' (atCursor [] 0)))))))
       = ''a a''
   \<and> fst (snd (insertLinkTwice ''a'' ''L'' (atCursor [] 0)))
       \<noteq> fst (snd (insertLink ''a'' ''L'' (atCursor [] 0)))"
  by (simp add: insertLinkTwice_def insertLink_def atCursor_def Let_def charAt_def insertText_def
        newTextElement_def setLinkUrl_def)

end
